theory Spec2Isabelle
  imports Main
begin

section \<open>JavaScript strings and arrays\<close>

text \<open>
  A JavaScript string is modelled as a \<^typ>\<open>string\<close>, an array of strings as a
  \<^typ>\<open>string list\<close>.  The functions below are the built-in string methods the
  repository calls: \<^verbatim>\<open>startsWith\<close>, \<^verbatim>\<open>includes\<close>, \<^verbatim>\<open>split\<close> with a one-character
  separator, \<^verbatim>\<open>replace\<close> with a string pattern (first occurrence only), \<^verbatim>\<open>join\<close>
  and \<^verbatim>\<open>trim\<close> (which strips white space; the white-space characters of ASCII are
  the ones modelled).  Names that are reserved words here carry the suffix \<open>Str\<close>.
\<close>

definition startsWith :: "string \<Rightarrow> string \<Rightarrow> bool" where
  "startsWith s p = (take (length p) s = p)"

definition endsWith :: "string \<Rightarrow> string \<Rightarrow> bool" where
  "endsWith s p = (length p \<le> length s \<and> drop (length s - length p) s = p)"

fun includesStr :: "string \<Rightarrow> string \<Rightarrow> bool" where
  "includesStr [] p = (p = [])"
| "includesStr (c # cs) p = (startsWith (c # cs) p \<or> includesStr cs p)"

fun splitStr :: "string \<Rightarrow> char \<Rightarrow> string list" where
  "splitStr [] sep = [[]]"
| "splitStr (c # cs) sep =
     (if c = sep then [] # splitStr cs sep
      else (case splitStr cs sep of
              [] \<Rightarrow> [[c]]
            | w # ws \<Rightarrow> (c # w) # ws))"

fun replaceStr :: "string \<Rightarrow> string \<Rightarrow> string \<Rightarrow> string" where
  "replaceStr [] p r = (if p = [] then r else [])"
| "replaceStr (c # cs) p r =
     (if startsWith (c # cs) p then r @ drop (length p) (c # cs)
      else c # replaceStr cs p r)"

fun joinStr :: "string list \<Rightarrow> string \<Rightarrow> string" where
  "joinStr [] sep = []"
| "joinStr [x] sep = x"
| "joinStr (x # y # ys) sep = x @ sep @ joinStr (y # ys) sep"

definition isWhiteSpace :: "char \<Rightarrow> bool" where
  "isWhiteSpace c =
     (c = CHR '' '' \<or> c = CHR 0x09 \<or> c = CHR 0x0A \<or> c = CHR 0x0B \<or> c = CHR 0x0C \<or> c = CHR 0x0D)"

definition trim :: "string \<Rightarrow> string" where
  "trim s = rev (dropWhile isWhiteSpace (rev (dropWhile isWhiteSpace s)))"

text \<open>
  An element read from an array by position is \<^verbatim>\<open>undefined\<close> beyond the end of the
  array; \<open>elemAt\<close> returns \<open>None\<close> there.  A value is falsy when it is \<^verbatim>\<open>undefined\<close> or
  the empty string.
\<close>

fun elemAt :: "'a list \<Rightarrow> nat \<Rightarrow> 'a option" where
  "elemAt [] n = None"
| "elemAt (x # xs) 0 = Some x"
| "elemAt (x # xs) (Suc n) = elemAt xs n"

fun falsy :: "string option \<Rightarrow> bool" where
  "falsy None = True"
| "falsy (Some s) = (s = [])"

text \<open>
  A thrown \<^verbatim>\<open>Error\<close> object is represented by its message, the syntax error of the
  regular-expression constructor by the pattern it refused.
\<close>

datatype js_error = Error string | SyntaxError string


section \<open>The shell variant: URL normalisation and branch mappings\<close>

text \<open>
  \<^verbatim>\<open>normalizeRepositoryUrl\<close> tests its argument against the regular expression
  \<^verbatim>\<open>/:|@|\.git\/?$/\<close>: a colon anywhere, an at sign anywhere, or \<^verbatim>\<open>.git\<close> followed by
  an optional slash at the end of the input.  The three \<^verbatim>\<open>console.log\<close> calls of the
  second branch do not influence the result and are left out.
\<close>

definition isGitUri :: "string \<Rightarrow> bool" where
  "isGitUri s =
     (includesStr s '':'' \<or> includesStr s ''@'' \<or> endsWith s ''.git'' \<or> endsWith s ''.git/'')"

definition normalizeRepositoryUrl :: "string \<Rightarrow> string" where
  "normalizeRepositoryUrl upstreamRepo =
     (if isGitUri upstreamRepo then upstreamRepo
      else ''https://github.com/'' @ upstreamRepo @ ''.git'')"

record BranchMapping =
  source :: string
  destination :: string

definition InvalidBranchMapping :: js_error where
  "InvalidBranchMapping =
     Error ''Invalid branch mapping format. Expected: SOURCE_BRANCH:DESTINATION_BRANCH''"

text \<open>
  \<^verbatim>\<open>const [source, destination] = branchMapping.split(":")\<close> binds the first two
  elements of the array and ignores the others.
\<close>

definition parseBranchMapping :: "string \<Rightarrow> js_error + BranchMapping" where
  "parseBranchMapping branchMapping =
     (let parts = splitStr branchMapping CHR '':'';
          src = elemAt parts 0;
          dst = elemAt parts 1
      in if falsy src \<or> falsy dst then Inl InvalidBranchMapping
         else (case (src, dst) of
                 (Some s, Some d) \<Rightarrow> Inr \<lparr>source = s, destination = d\<rparr>
               | _ \<Rightarrow> Inl InvalidBranchMapping))"


section \<open>Constants\<close>

definition BRANCH_FALLBACK_ORDER :: "string list" where
  "BRANCH_FALLBACK_ORDER = [''main'', ''master'']"

text \<open>
  The three entries of \<^verbatim>\<open>GERRIT_DETECTION_PATTERNS\<close> are regular-expression literals
  without metacharacters: \<^verbatim>\<open>/gerrit/i\<close>, \<^verbatim>\<open>/:29418/\<close> and \<^verbatim>\<open>/\/r\//\<close>.  Such a literal
  is a text to be found anywhere in the input, together with the \<^verbatim>\<open>i\<close> flag.  Under the
  flag two characters match when their canonical forms agree; the canonical form of
  a lower-case ASCII letter is the upper-case letter, and no character outside ASCII
  is canonicalised to an ASCII one.
\<close>

datatype RegExpLiteral = RegExpLiteral string bool

definition toUpperCase :: "char \<Rightarrow> char" where
  "toUpperCase c =
     (case map_of (zip ''abcdefghijklmnopqrstuvwxyz'' ''ABCDEFGHIJKLMNOPQRSTUVWXYZ'') c of
        Some u \<Rightarrow> u
      | None \<Rightarrow> c)"

fun test :: "RegExpLiteral \<Rightarrow> string \<Rightarrow> bool" where
  "test (RegExpLiteral text ignoreCase) s =
     (if ignoreCase then includesStr (map toUpperCase s) (map toUpperCase text)
      else includesStr s text)"

definition GERRIT_DETECTION_PATTERNS :: "RegExpLiteral list" where
  "GERRIT_DETECTION_PATTERNS =
     [RegExpLiteral ''gerrit'' True, RegExpLiteral '':29418'' False, RegExpLiteral ''/r/'' False]"


text \<open>
  The three parts of \<^verbatim>\<open>ERROR_MESSAGES\<close> for a modified destination: the headline with
  the branch name, the explanation and the suggested resolution.
\<close>

definition DESTINATION_MODIFIED :: "string \<Rightarrow> string" where
  \<open>DESTINATION_MODIFIED branch =
     ''Destination branch "'' @ branch @ ''" has been modified since last sync.''\<close>



text \<open>
  \<^verbatim>\<open>ERROR_MESSAGES.BRANCH_NOT_FOUND_WITH_FALLBACK\<close>; the list of available branches is
  joined by a comma and a space, and an empty join is replaced by \<^verbatim>\<open>none\<close>.
\<close>

definition BRANCH_NOT_FOUND_WITH_FALLBACK :: "string \<Rightarrow> string list \<Rightarrow> string" where
  \<open>BRANCH_NOT_FOUND_WITH_FALLBACK branch available =
     ''Branch "'' @ branch
       @ ''" not found, and no fallback (main/master) available. Available branches: ''
       @ (if joinStr available '', '' = [] then ''none'' else joinStr available '', '')\<close>


section \<open>Branch utilities\<close>

text \<open>
  \<^verbatim>\<open>getTryFallbackBranch\<close> walks \<^verbatim>\<open>BRANCH_FALLBACK_ORDER\<close> and returns the first entry
  that the list of available branches includes, or \<^verbatim>\<open>null\<close>.  The loop is
  \<open>firstIncluded\<close>.
\<close>

fun firstIncluded :: "string list \<Rightarrow> string list \<Rightarrow> string option" where
  "firstIncluded [] availableBranches = None"
| "firstIncluded (branch # rest) availableBranches =
     (if branch \<in> set availableBranches then Some branch
      else firstIncluded rest availableBranches)"

definition getTryFallbackBranch :: "string list \<Rightarrow> string option" where
  "getTryFallbackBranch availableBranches =
     firstIncluded BRANCH_FALLBACK_ORDER availableBranches"


section \<open>The action: branches and tags through the git client\<close>

text \<open>
  The action drives a git client object.  Each call on it is an operation that either
  completes or rejects with an error; the code awaits one operation after the other
  and has no handler of its own, so a rejection ends the function that awaited it.
  The client is a record: \<open>rejects\<close> says which operations reject (and with which
  message), \<open>branchAll\<close> is the listing that \<^verbatim>\<open>repo.branch(["-r"])\<close> resolves to and
  \<open>tagsAll\<close> the one that \<^verbatim>\<open>repo.tags()\<close> resolves to.  A function returns its result
  together with the operations it has started, in order.  The calls to \<^verbatim>\<open>core.info\<close>
  are left out.
\<close>

datatype GitOp =
    Fetch string string
  | Push string string bool
  | PushTags string bool
  | BranchList
  | TagList

record Git =
  rejects :: "GitOp \<Rightarrow> string option"
  branchAll :: "string list"
  tagsAll :: "string list"

type_synonym outcome = "(js_error + unit) \<times> GitOp list"

text \<open>
  A push operation, and a push operation that carries \<^verbatim>\<open>--force\<close> (the option
  \<^verbatim>\<open>{ "--force": null }\<close> of the client is the last argument \<open>True\<close>).
\<close>

fun isPush :: "GitOp \<Rightarrow> bool" where
  "isPush (Push remote refspec force) = True"
| "isPush (PushTags remote force) = True"
| "isPush _ = False"

fun forced :: "GitOp \<Rightarrow> bool" where
  "forced (Push remote refspec force) = force"
| "forced (PushTags remote force) = force"
| "forced _ = False"

definition await :: "Git \<Rightarrow> GitOp \<Rightarrow> outcome \<Rightarrow> outcome" where
  "await git operation continue =
     (case rejects git operation of
        Some message \<Rightarrow> (Inl (Error message), [operation])
      | None \<Rightarrow> (fst continue, operation # snd continue))"

definition branchRefspec :: "string \<Rightarrow> string \<Rightarrow> string" where
  "branchRefspec sourceBranch destinationBranch =
     ''refs/remotes/source/'' @ sourceBranch @ '':refs/heads/'' @ destinationBranch"

abbreviation branchPush :: "string \<Rightarrow> string \<Rightarrow> GitOp" where
  "branchPush sourceBranch destinationBranch \<equiv>
     Push ''origin'' (branchRefspec sourceBranch destinationBranch) True"

fun pushBranchNames :: "Git \<Rightarrow> string list \<Rightarrow> outcome" where
  "pushBranchNames git [] = (Inr (), [])"
| "pushBranchNames git (branch # rest) =
     await git (branchPush branch branch) (pushBranchNames git rest)"

definition branchNames :: "string list \<Rightarrow> string list" where
  "branchNames all =
     map (\<lambda>b. replaceStr b ''source/'' [])
       (filter (\<lambda>b. startsWith b ''source/'' \<and> \<not> includesStr b ''->'') all)"

definition syncBranches :: "Git \<Rightarrow> string \<Rightarrow> string \<Rightarrow> bool \<Rightarrow> outcome" where
  "syncBranches git sourceBranch destinationBranch syncAllBranches =
     (if syncAllBranches then
        await git BranchList (pushBranchNames git (branchNames (branchAll git)))
      else
        await git (Fetch ''source'' sourceBranch)
          (await git (branchPush sourceBranch destinationBranch) (Inr (), [])))"

text \<open>
  \<^verbatim>\<open>tag.match(syncTags)\<close> turns the string into a regular expression and searches the
  tag name for it.  The regular-expression engine is a parameter \<open>regExp\<close>: for a
  pattern it gives \<open>None\<close> when the pattern is not a regular expression (the call
  throws a syntax error), and otherwise the predicate "the search finds a match".
  The callback of \<^verbatim>\<open>filter\<close> runs once for each tag, so with no tag the pattern is
  never compiled.
\<close>

type_synonym RegExpEngine = "string \<Rightarrow> (string \<Rightarrow> bool) option"

definition filterMatching :: "RegExpEngine \<Rightarrow> string \<Rightarrow> string list \<Rightarrow> js_error + string list" where
  "filterMatching regExp pattern tags =
     (if tags = [] then Inr []
      else (case regExp pattern of
              None \<Rightarrow> Inl (SyntaxError pattern)
            | Some matches \<Rightarrow> Inr (filter matches tags)))"

definition tagRefspec :: "string \<Rightarrow> string" where
  "tagRefspec tag = ''refs/tags/'' @ tag @ '':refs/tags/'' @ tag"

abbreviation tagPush :: "string \<Rightarrow> GitOp" where
  "tagPush tag \<equiv> Push ''origin'' (tagRefspec tag) True"

fun pushMatchingTags :: "Git \<Rightarrow> string list \<Rightarrow> outcome" where
  "pushMatchingTags git [] = (Inr (), [])"
| "pushMatchingTags git (tag # rest) =
     (if tag \<noteq> [] then await git (tagPush tag) (pushMatchingTags git rest)
      else pushMatchingTags git rest)"

definition syncTags :: "RegExpEngine \<Rightarrow> Git \<Rightarrow> string \<Rightarrow> outcome" where
  "syncTags regExp git syncTagsInput =
     (if syncTagsInput = ''true'' then
        await git (Fetch ''source'' ''--tags'')
          (await git (PushTags ''origin'' True) (Inr (), []))
      else if syncTagsInput \<noteq> [] then
        await git (Fetch ''source'' ''--tags'')
          (await git TagList
             (case filterMatching regExp syncTagsInput (tagsAll git) of
                Inl e \<Rightarrow> (Inl e, [])
              | Inr matchingTags \<Rightarrow> pushMatchingTags git matchingTags))
      else (Inr (), []))"

text \<open>
  The end of \<^verbatim>\<open>run\<close>: the branches, then the tags, inside one \<^verbatim>\<open>try\<close> whose handler
  marks the run as failed with the message of the error.
\<close>

datatype RunStatus = Completed | Failed js_error

definition runSync :: "RegExpEngine \<Rightarrow> Git \<Rightarrow> string \<Rightarrow> string \<Rightarrow> bool \<Rightarrow> string
    \<Rightarrow> RunStatus \<times> GitOp list" where
  "runSync regExp git sourceBranch destinationBranch syncAllBranches syncTagsInput =
     (case syncBranches git sourceBranch destinationBranch syncAllBranches of
        (Inl e, ops) \<Rightarrow> (Failed e, ops)
      | (Inr u, ops) \<Rightarrow>
          (case syncTags regExp git syncTagsInput of
             (Inl e, ops') \<Rightarrow> (Failed e, ops @ ops')
           | (Inr u', ops') \<Rightarrow> (Completed, ops @ ops')))"


section \<open>The shell variant: commands\<close>

text \<open>
  \<^verbatim>\<open>run\<close> hands a command line to \<^verbatim>\<open>execSync\<close> inside a \<^verbatim>\<open>try\<close> block, with the child's
  output piped when \<^verbatim>\<open>quiet\<close> is set and inherited otherwise, and trims what comes back.
  The shell is a parameter: for a command line it gives \<open>Inl message\<close> when the command
  exits with a status other than zero (\<^verbatim>\<open>execSync\<close> then throws an error with that
  message) and \<open>Inr output\<close> when it exits with status zero after writing \<open>output\<close>.
  \<^verbatim>\<open>execSync\<close> returns the output only when it is piped; with inherited output it
  returns \<^verbatim>\<open>null\<close>, and the call of \<^verbatim>\<open>trim\<close> on it throws a type error inside the same
  \<^verbatim>\<open>try\<close> block (\<open>nullTrimMessage\<close> is the text of that error in current versions of
  the runtime).  The handler wraps the message of whatever was thrown.  Functions
  built on \<^verbatim>\<open>run\<close> return their result and the command lines they have handed over,
  in order.
\<close>

type_synonym Shell = "string \<Rightarrow> string + string"

type_synonym 'a shell_outcome = "(js_error + 'a) \<times> string list"

definition execSync :: "Shell \<Rightarrow> string \<Rightarrow> bool \<Rightarrow> string + string option" where
  "execSync shell command piped =
     (case shell command of
        Inl message \<Rightarrow> Inl message
      | Inr output \<Rightarrow> Inr (if piped then Some output else None))"

definition nullTrimMessage :: string where
  "nullTrimMessage =
     ''Cannot read properties of null (reading '' @ [CHR 0x27] @ ''trim'' @ [CHR 0x27] @ '')''"

definition run :: "Shell \<Rightarrow> string \<Rightarrow> bool \<Rightarrow> js_error + string" where
  "run shell command quiet =
     (case execSync shell command quiet of
        Inr (Some output) \<Rightarrow> Inr (trim output)
      | Inr None \<Rightarrow>
          Inl (Error (''Command failed: '' @ command @ ''\<newline>'' @ nullTrimMessage))
      | Inl message \<Rightarrow>
          Inl (Error (''Command failed: '' @ command @ ''\<newline>'' @ message)))"

definition runThen :: "Shell \<Rightarrow> string \<Rightarrow> bool \<Rightarrow> (string \<Rightarrow> 'a shell_outcome) \<Rightarrow> 'a shell_outcome" where
  "runThen shell command quiet continue =
     (case run shell command quiet of
        Inl e \<Rightarrow> (Inl e, [command])
      | Inr output \<Rightarrow> (fst (continue output), command # snd (continue output)))"

definition pushBranchCommand :: "string \<Rightarrow> string \<Rightarrow> string" where
  \<open>pushBranchCommand sourceBranch destinationBranch =
     ''git push origin "refs/remotes/tmp_upstream/'' @ sourceBranch
       @ '':refs/heads/'' @ destinationBranch @ ''" --force''\<close>

definition syncBranch :: "Shell \<Rightarrow> string \<Rightarrow> string \<Rightarrow> unit shell_outcome" where
  "syncBranch shell sourceBranch destinationBranch =
     runThen shell ''git fetch tmp_upstream --quiet'' False (\<lambda>_.
     runThen shell ''git remote --verbose'' False (\<lambda>_.
     runThen shell (pushBranchCommand sourceBranch destinationBranch) False (\<lambda>_.
     (Inr (), []))))"

text \<open>
  Both branches of the shell variant's \<^verbatim>\<open>syncTags\<close> begin by deleting the local tags.
\<close>

definition deleteLocalTags :: "Shell \<Rightarrow> unit shell_outcome \<Rightarrow> unit shell_outcome" where
  "deleteLocalTags shell continue =
     runThen shell ''git tag -l'' True (\<lambda>localTags.
       if localTags \<noteq> [] then
         runThen shell (''git tag -d '' @ joinStr (splitStr localTags CHR ''\<newline>'') '' '') True
           (\<lambda>_. continue)
       else continue)"

definition grepTagsCommand :: "string \<Rightarrow> string" where
  \<open>grepTagsCommand pattern = ''git tag | grep "'' @ pattern @ ''"''\<close>

definition pushTagsCommand :: "string list \<Rightarrow> string" where
  \<open>pushTagsCommand tags =
     ''git push origin --force '' @ joinStr (map (\<lambda>t. ''"'' @ t @ ''"'') tags) '' ''\<close>

definition syncTags_shell :: "Shell \<Rightarrow> string option \<Rightarrow> unit shell_outcome" where
  "syncTags_shell shell SYNC_TAGS =
     (case SYNC_TAGS of
        None \<Rightarrow> (Inr (), [])
      | Some pattern \<Rightarrow>
          if pattern = [] then (Inr (), [])
          else if pattern = ''true'' then
            deleteLocalTags shell
              (runThen shell ''git fetch tmp_upstream --tags --quiet'' False (\<lambda>_.
               runThen shell ''git push origin --tags --force'' False (\<lambda>_.
               (Inr (), []))))
          else
            deleteLocalTags shell
              (runThen shell ''git fetch tmp_upstream --tags --quiet'' False (\<lambda>_.
               runThen shell (grepTagsCommand pattern) True (\<lambda>matchingTags.
                 if matchingTags \<noteq> [] then
                   (let tags = filter (\<lambda>t. t \<noteq> []) (splitStr matchingTags CHR ''\<newline>'')
                    in if length tags > 0 then
                         runThen shell (pushTagsCommand tags) False (\<lambda>_. (Inr (), []))
                       else (Inr (), []))
                 else (Inr (), [])))))"


section \<open>A regular-expression engine for anchored literal patterns\<close>

text \<open>
  For evaluating \<open>syncTags\<close> on concrete patterns there is an engine for a fragment of
  the pattern language: an optional \<^verbatim>\<open>^\<close> at the start, then ordinary characters, the dot
  (any character except a line terminator) and backslash escapes of punctuation, and an
  optional \<^verbatim>\<open>$\<close> at the end.  \<open>parseItems\<close> gives \<open>None\<close> for a pattern outside the
  fragment, and \<open>fragmentRegExp\<close> is left unspecified there: it says nothing about such
  a pattern, neither that it is refused nor what it matches.
\<close>

datatype RxItem = Lit char | AnyChar

fun parseItems :: "string \<Rightarrow> (RxItem list \<times> bool) option" where
  "parseItems [] = Some ([], False)"
| "parseItems (c # cs) =
     (if c = CHR ''$'' \<and> cs = [] then Some ([], True)
      else if c = CHR 0x5C then
        (case cs of
           [] \<Rightarrow> None
         | d # ds \<Rightarrow>
             (if d \<in> set ''./-^$*+?()[]{}|'' \<or> d = CHR 0x5C
              then map_option (\<lambda>(items, atEnd). (Lit d # items, atEnd)) (parseItems ds)
              else None))
      else if c = CHR ''.'' then
        map_option (\<lambda>(items, atEnd). (AnyChar # items, atEnd)) (parseItems cs)
      else if c \<in> set ''^$*+?()[]{}|'' then None
      else map_option (\<lambda>(items, atEnd). (Lit c # items, atEnd)) (parseItems cs))"

fun itemMatches :: "RxItem \<Rightarrow> char \<Rightarrow> bool" where
  "itemMatches (Lit x) c = (c = x)"
| "itemMatches AnyChar c = (c \<noteq> CHR 0x0A \<and> c \<noteq> CHR 0x0D)"

fun matchHere :: "RxItem list \<Rightarrow> bool \<Rightarrow> string \<Rightarrow> bool" where
  "matchHere [] atEnd s = (if atEnd then s = [] else True)"
| "matchHere (i # items) atEnd [] = False"
| "matchHere (i # items) atEnd (c # cs) = (itemMatches i c \<and> matchHere items atEnd cs)"

fun matchSomewhere :: "RxItem list \<Rightarrow> bool \<Rightarrow> string \<Rightarrow> bool" where
  "matchSomewhere items atEnd [] = matchHere items atEnd []"
| "matchSomewhere items atEnd (c # cs) =
     (matchHere items atEnd (c # cs) \<or> matchSomewhere items atEnd cs)"

definition fragmentRegExp :: RegExpEngine where
  "fragmentRegExp pattern =
     (case pattern of
        [] \<Rightarrow> Some (\<lambda>s. True)
      | c # cs \<Rightarrow>
          (if c = CHR ''^''
           then (case parseItems cs of
                   Some (items, atEnd) \<Rightarrow> Some (matchHere items atEnd)
                 | None \<Rightarrow> undefined)
           else (case parseItems (c # cs) of
                   Some (items, atEnd) \<Rightarrow> Some (matchSomewhere items atEnd)
                 | None \<Rightarrow> undefined)))"


section \<open>Environments for concrete runs\<close>

text \<open>
  A git client that rejects the listed operations, each with its message, and
  completes every other one; and a shell in which the listed command lines end as
  given and every other command line exits with status zero and writes nothing.
\<close>

definition clientRejecting :: "(GitOp \<times> string) list \<Rightarrow> string list \<Rightarrow> string list \<Rightarrow> Git" where
  "clientRejecting rejected branches tags =
     \<lparr>rejects = map_of rejected, branchAll = branches, tagsAll = tags\<rparr>"

definition scriptedShell :: "(string \<times> (string + string)) list \<Rightarrow> Shell" where
  "scriptedShell script command =
     (case map_of script command of
        Some result \<Rightarrow> result
      | None \<Rightarrow> Inr [])"


section \<open>Components specified but not present in the sources\<close>

text \<open>
  Modelled from the spec: the Remote Classifier \<open>classify\<close> (section 4.1).  Only its
  table of detectors, \<^verbatim>\<open>GERRIT_DETECTION_PATTERNS\<close>, is in the sources; the function
  that applies them is not.  The spec: apply the ordered list of detectors, the first
  match wins, no match gives \<open>Standard\<close>.  \<open>detect\<close> is the winning detector.
\<close>

datatype RemoteKind = Standard | Gerrit

definition detect :: "string \<Rightarrow> RegExpLiteral option" where
  "detect url = find (\<lambda>detector. test detector url) GERRIT_DETECTION_PATTERNS"

definition classify :: "string \<Rightarrow> RemoteKind" where
  "classify url = (case detect url of Some _ \<Rightarrow> Gerrit | None \<Rightarrow> Standard)"

text \<open>
  Modelled from the spec: the Branch Resolver \<open>resolve\<close> (section 4.2).  The sources
  hold the fallback scan (\<^verbatim>\<open>getTryFallbackBranch\<close>, over the constant order) and the
  message of the failure, not the resolver that calls them.  The spec: a requested
  branch that is available is returned unchanged; otherwise the fallback order is
  scanned and its first available entry returned; otherwise the resolver fails with
  \<open>BranchNotFound\<close>, which carries the requested name and the available branches.
  The second error kind is the one of the Push Planner below; it carries the
  destination branch, the explanation and the suggested resolution.
\<close>

datatype ErrorKind =
    BranchNotFound string "string list"
  | DestinationModified string string string

definition resolve :: "string \<Rightarrow> string list \<Rightarrow> string list \<Rightarrow> ErrorKind + string" where
  "resolve requested available fallbackOrder =
     (if requested \<in> set available then Inr requested
      else (case firstIncluded fallbackOrder available of
              Some branch \<Rightarrow> Inr branch
            | None \<Rightarrow> Inl (BranchNotFound requested available)))"

text \<open>
  Modelled from the spec: the Divergence Analyzer \<open>analyze\<close> (section 4.3), which is
  not in the sources.  The common-ancestor computation is a capability of the
  executor (section 6) and a parameter here; it gives \<open>None\<close> when the two commits
  share no history.  The spec: an absent destination is \<open>Missing\<close>; equal commits are
  \<open>Identical\<close>; a merge base equal to the destination commit is \<open>FastForward\<close>; a merge
  base equal to the source commit means that the destination is ahead, a no-op with
  its own label; anything else is \<open>Diverged\<close> with the merge base.
\<close>

type_synonym CommitId = string

record RefSnapshot =
  name :: string
  commit :: CommitId

datatype DivergenceResult =
    Missing
  | Identical
  | FastForward
  | Diverged "CommitId option"
  | SourceAheadCleanDestination

definition analyze :: "(CommitId \<Rightarrow> CommitId \<Rightarrow> CommitId option) \<Rightarrow> RefSnapshot
    \<Rightarrow> RefSnapshot option \<Rightarrow> DivergenceResult" where
  "analyze commonAncestor src dst =
     (case dst of
        None \<Rightarrow> Missing
      | Some d \<Rightarrow>
          (if commit src = commit d then Identical
           else (let mergeBase = commonAncestor (commit src) (commit d)
                 in if mergeBase = Some (commit d) then FastForward
                    else if mergeBase = Some (commit src) then SourceAheadCleanDestination
                    else Diverged mergeBase)))"

text \<open>
  Modelled from the spec: a common-ancestor computation (the glossary's merge base,
  the most recent commit reachable from both histories) for histories in which every
  commit has at most one parent.  A history is the list of its (commit, parent) pairs;
  \<open>lineage\<close> lists a commit and its ancestors, nearest first.
\<close>

type_synonym History = "(CommitId \<times> CommitId) list"

fun lineageUpTo :: "nat \<Rightarrow> History \<Rightarrow> CommitId \<Rightarrow> CommitId list" where
  "lineageUpTo 0 history c = [c]"
| "lineageUpTo (Suc n) history c =
     c # (case map_of history c of
            None \<Rightarrow> []
          | Some parent \<Rightarrow> lineageUpTo n history parent)"

definition lineage :: "History \<Rightarrow> CommitId \<Rightarrow> CommitId list" where
  "lineage history c = lineageUpTo (length history) history c"

definition commonAncestorIn :: "History \<Rightarrow> CommitId \<Rightarrow> CommitId \<Rightarrow> CommitId option" where
  "commonAncestorIn history a b =
     find (\<lambda>c. c \<in> set (lineage history b)) (lineage history a)"






section \<open>Properties of the string functions\<close>

lemma startsWith_iff: "startsWith s p \<longleftrightarrow> (\<exists>t. s = p @ t)"
proof
  assume "startsWith s p"
  then have "s = p @ drop (length p) s"
    unfolding startsWith_def by (metis append_take_drop_id)
  then show "\<exists>t. s = p @ t" ..
next
  assume "\<exists>t. s = p @ t"
  then show "startsWith s p" by (auto simp: startsWith_def)
qed

lemma endsWith_iff: "endsWith s p \<longleftrightarrow> (\<exists>t. s = t @ p)"
proof
  assume "endsWith s p"
  then have "s = take (length s - length p) s @ p"
    unfolding endsWith_def by (metis append_take_drop_id)
  then show "\<exists>t. s = t @ p" ..
next
  assume "\<exists>t. s = t @ p"
  then show "endsWith s p" by (auto simp: endsWith_def)
qed

lemma includes_iff: "includesStr s p \<longleftrightarrow> (\<exists>a b. s = a @ p @ b)"
proof (induction s)
  case Nil
  show ?case by auto
next
  case (Cons c cs)
  show ?case
  proof
    assume "includesStr (c # cs) p"
    then consider "startsWith (c # cs) p" | "includesStr cs p" by auto
    then show "\<exists>a b. c # cs = a @ p @ b"
    proof cases
      case 1
      then obtain t where "c # cs = p @ t" by (auto simp: startsWith_iff)
      then have "c # cs = [] @ p @ t" by simp
      then show ?thesis by blast
    next
      case 2
      then obtain a b where "cs = a @ p @ b" using Cons.IH by blast
      then have "c # cs = (c # a) @ p @ b" by simp
      then show ?thesis by blast
    qed
  next
    assume "\<exists>a b. c # cs = a @ p @ b"
    then obtain a b where ab: "c # cs = a @ p @ b" by blast
    show "includesStr (c # cs) p"
    proof (cases a)
      case Nil
      with ab have "startsWith (c # cs) p" by (auto simp: startsWith_iff)
      then show ?thesis by simp
    next
      case (Cons x a')
      with ab have "cs = a' @ p @ b" by simp
      then have "includesStr cs p" using Cons.IH by blast
      then show ?thesis by simp
    qed
  qed
qed

lemma includes_char: "includesStr s [c] \<longleftrightarrow> c \<in> set s"
  by (induction s) (auto simp: startsWith_def)

lemma split_not_Nil: "splitStr s sep \<noteq> []"
  by (induction s) (auto split: list.splits)

lemma split_no_sep: "sep \<notin> set s \<Longrightarrow> splitStr s sep = [s]"
  by (induction s) auto

lemma split_append_sep:
  "sep \<notin> set s \<Longrightarrow> splitStr (s @ sep # t) sep = s # splitStr t sep"
  by (induction s) auto

lemma split_takeWhile_dropWhile:
  "splitStr s sep =
     (if sep \<in> set s
      then takeWhile (\<lambda>c. c \<noteq> sep) s # splitStr (tl (dropWhile (\<lambda>c. c \<noteq> sep) s)) sep
      else [s])"
  by (induction s) (auto simp: split_no_sep)


lemma elemAt_split_0:
  "elemAt (splitStr s sep) 0 = Some (takeWhile (\<lambda>c. c \<noteq> sep) s)"
proof (cases "sep \<in> set s")
  case True
  then show ?thesis by (subst split_takeWhile_dropWhile) simp
next
  case False
  then have tw: "takeWhile (\<lambda>c. c \<noteq> sep) s = s" by (induction s) auto
  from False have "splitStr s sep = [s]" by (rule split_no_sep)
  then show ?thesis unfolding tw by simp
qed

lemma elemAt_split_1:
  "elemAt (splitStr s sep) (Suc 0) =
     (if sep \<in> set s
      then Some (takeWhile (\<lambda>c. c \<noteq> sep) (tl (dropWhile (\<lambda>c. c \<noteq> sep) s)))
      else None)"
proof (cases "sep \<in> set s")
  case True
  then show ?thesis
    by (subst split_takeWhile_dropWhile) (simp add: elemAt_split_0)
next
  case False
  then show ?thesis by (simp add: split_no_sep)
qed


lemma includes_map_iff:
  "includesStr (map f s) p \<longleftrightarrow> (\<exists>a g b. s = a @ g @ b \<and> map f g = p)"
proof
  assume "includesStr (map f s) p"
  then obtain a b where ab: "map f s = a @ p @ b"
    unfolding includes_iff by (elim exE)
  let ?g = "take (length p) (drop (length a) s)"
  have 1: "s = take (length a) s @ ?g @ drop (length p) (drop (length a) s)"
    by (simp only: append_take_drop_id)
  have "map f ?g = take (length p) (drop (length a) (map f s))"
    by (simp add: take_map drop_map)
  then have 2: "map f ?g = p"
    unfolding ab by simp
  from 1 2 show "\<exists>a g b. s = a @ g @ b \<and> map f g = p"
    by (intro exI conjI)
next
  assume "\<exists>a g b. s = a @ g @ b \<and> map f g = p"
  then obtain a g b where "s = a @ g @ b" and "map f g = p"
    by (elim exE conjE)
  then have "map f s = map f a @ p @ map f b"
    by simp
  then show "includesStr (map f s) p"
    unfolding includes_iff by (intro exI)
qed

lemma upper_gerrit: "map toUpperCase ''gerrit'' = ''GERRIT''"
  by (simp add: toUpperCase_def)

lemma test_gerrit:
  "test (RegExpLiteral ''gerrit'' True) url = includesStr (map toUpperCase url) ''GERRIT''"
  unfolding test.simps upper_gerrit by simp

lemma detect_unfold:
  "detect url =
     (if includesStr (map toUpperCase url) ''GERRIT'' then Some (RegExpLiteral ''gerrit'' True)
      else if includesStr url '':29418'' then Some (RegExpLiteral '':29418'' False)
      else if includesStr url ''/r/'' then Some (RegExpLiteral ''/r/'' False)
      else None)"
  unfolding detect_def GERRIT_DETECTION_PATTERNS_def find.simps test_gerrit
  by simp

lemma find_first:
  "i < length xs \<Longrightarrow> P (xs ! i) \<Longrightarrow> (\<forall>j<i. \<not> P (xs ! j)) \<Longrightarrow> find P xs = Some (xs ! i)"
proof (induction xs arbitrary: i)
  case Nil
  then show ?case by simp
next
  case (Cons x xs)
  show ?case
  proof (cases i)
    case 0
    with Cons.prems show ?thesis by simp
  next
    case (Suc k)
    with Cons.prems have "\<not> P x" by auto
    moreover have "find P xs = Some (xs ! k)"
      using Cons.prems Suc by (intro Cons.IH) auto
    ultimately show ?thesis using Suc by simp
  qed
qed



section \<open>Theorems about the shell variant's pure functions\<close>

text \<open>
  C8.  Parsing a branch mapping fails, with the invalid-branch-mapping error, exactly
  when the source component (the text before the first colon) is empty, or the
  destination component is absent (the string has no colon) or empty (nothing stands
  between the first colon and the second colon or the end).  No other error is raised,
  and on success both returned fields are non-empty.
\<close>

theorem parseBranchMapping_invalid_iff:
  "(parseBranchMapping m = Inl InvalidBranchMapping \<longleftrightarrow>
      takeWhile (\<lambda>c. c \<noteq> CHR '':'') m = []
      \<or> CHR '':'' \<notin> set m
      \<or> takeWhile (\<lambda>c. c \<noteq> CHR '':'') (tl (dropWhile (\<lambda>c. c \<noteq> CHR '':'') m)) = [])
   \<and> (\<forall>e. parseBranchMapping m = Inl e \<longrightarrow> e = InvalidBranchMapping)
   \<and> (\<forall>r. parseBranchMapping m = Inr r \<longrightarrow>
          source r = takeWhile (\<lambda>c. c \<noteq> CHR '':'') m
          \<and> destination r =
              takeWhile (\<lambda>c. c \<noteq> CHR '':'') (tl (dropWhile (\<lambda>c. c \<noteq> CHR '':'') m))
          \<and> source r \<noteq> [] \<and> destination r \<noteq> [])"
  by (auto simp: parseBranchMapping_def Let_def elemAt_split_0 elemAt_split_1)

theorem parseBranchMapping_invalid_iff_witness:
  "parseBranchMapping ''main:'' = Inl InvalidBranchMapping
   \<and> parseBranchMapping '':main'' = Inl InvalidBranchMapping
   \<and> parseBranchMapping ''main'' = Inl InvalidBranchMapping
   \<and> parseBranchMapping ''main:dev'' = Inr \<lparr>source = ''main'', destination = ''dev''\<rparr>
   \<and> source \<lparr>source = ''main'', destination = ''dev''\<rparr> \<noteq> []
   \<and> destination \<lparr>source = ''main'', destination = ''dev''\<rparr> \<noteq> []"
  using parseBranchMapping_invalid_iff [of "''main:''"]
    parseBranchMapping_invalid_iff [of "'':main''"]
    parseBranchMapping_invalid_iff [of "''main''"]
    parseBranchMapping_invalid_iff [of "''main:dev''"]
  by (simp add: parseBranchMapping_def)

text \<open>
  C9.  \<^verbatim>\<open>normalizeRepositoryUrl\<close> is idempotent.  An input that contains a colon or
  an at sign, or that ends in \<^verbatim>\<open>.git\<close> or \<^verbatim>\<open>.git/\<close>, is returned unchanged; every other
  input \<open>u\<close> becomes \<^verbatim>\<open>https://github.com/\<close> followed by \<open>u\<close> and \<^verbatim>\<open>.git\<close>, and that
  string is a fixed point.
\<close>

theorem normalizeRepositoryUrl_idempotent:
  "normalizeRepositoryUrl (normalizeRepositoryUrl u) = normalizeRepositoryUrl u
   \<and> (CHR '':'' \<in> set u \<or> CHR ''@'' \<in> set u
        \<or> (\<exists>t. u = t @ ''.git'') \<or> (\<exists>t. u = t @ ''.git/'')
      \<longrightarrow> normalizeRepositoryUrl u = u)
   \<and> (\<not> (CHR '':'' \<in> set u \<or> CHR ''@'' \<in> set u
           \<or> (\<exists>t. u = t @ ''.git'') \<or> (\<exists>t. u = t @ ''.git/''))
      \<longrightarrow> normalizeRepositoryUrl u = ''https://github.com/'' @ u @ ''.git''
          \<and> normalizeRepositoryUrl (''https://github.com/'' @ u @ ''.git'')
              = ''https://github.com/'' @ u @ ''.git'')"
proof -
  have uri: "isGitUri s \<longleftrightarrow>
      CHR '':'' \<in> set s \<or> CHR ''@'' \<in> set s
      \<or> (\<exists>t. s = t @ ''.git'') \<or> (\<exists>t. s = t @ ''.git/'')" for s
    unfolding isGitUri_def includes_char endsWith_iff by (rule refl)
  have fixed: "isGitUri (''https://github.com/'' @ s @ ''.git'')" for s
    unfolding uri by simp
  show ?thesis
    unfolding uri [symmetric] using fixed [of u]
    by (simp add: normalizeRepositoryUrl_def)
qed

theorem normalizeRepositoryUrl_idempotent_witness:
  "normalizeRepositoryUrl ''git@github.com:owner/repo'' = ''git@github.com:owner/repo''
   \<and> normalizeRepositoryUrl ''owner/repo.git/'' = ''owner/repo.git/''
   \<and> normalizeRepositoryUrl ''owner/repo'' = ''https://github.com/owner/repo.git''
   \<and> normalizeRepositoryUrl ''https://github.com/owner/repo.git''
       = ''https://github.com/owner/repo.git''"
proof -
  have a: "CHR '':'' \<in> set ''git@github.com:owner/repo''" by simp
  have b: "\<exists>t. ''owner/repo.git/'' = t @ ''.git/''"
    by (rule exI [of _ "''owner/repo''"]) simp
  have c: "\<not> (CHR '':'' \<in> set ''owner/repo'' \<or> CHR ''@'' \<in> set ''owner/repo''
             \<or> (\<exists>t. ''owner/repo'' = t @ ''.git'') \<or> (\<exists>t. ''owner/repo'' = t @ ''.git/''))"
    by (simp add: append_eq_Cons_conv Cons_eq_append_conv)
  show ?thesis
    using a b c
      normalizeRepositoryUrl_idempotent [of "''git@github.com:owner/repo''"]
      normalizeRepositoryUrl_idempotent [of "''owner/repo.git/''"]
      normalizeRepositoryUrl_idempotent [of "''owner/repo''"]
    by simp
qed

text \<open>
  C10.  A mapping string with two or more colons whose first two components are
  non-empty is accepted: the first component is the source, the second the
  destination, and everything from the second colon on is dropped without an error.
\<close>

theorem parseBranchMapping_extra_components:
  assumes "a \<noteq> []" and "b \<noteq> []"
    and "CHR '':'' \<notin> set a" and "CHR '':'' \<notin> set b"
  shows "parseBranchMapping (a @ '':'' @ b @ '':'' @ rest)
           = Inr \<lparr>source = a, destination = b\<rparr>"
proof -
  have "splitStr (a @ CHR '':'' # b @ CHR '':'' # rest) CHR '':''
          = a # b # splitStr rest CHR '':''"
    using assms by (simp add: split_append_sep)
  then show ?thesis
    using assms by (simp add: parseBranchMapping_def)
qed

theorem parseBranchMapping_extra_components_witness:
  "''a'' \<noteq> [] \<and> ''b'' \<noteq> [] \<and> CHR '':'' \<notin> set ''a'' \<and> CHR '':'' \<notin> set ''b''
   \<and> parseBranchMapping ''a:b:c'' = Inr \<lparr>source = ''a'', destination = ''b''\<rparr>"
  using parseBranchMapping_extra_components [of "''a''" "''b''" "''c''"]
  by simp


section \<open>Theorems about the specified components\<close>

text \<open>
  C4.  Classification is a function of the URL alone, defined on every string.  It
  yields \<open>Gerrit\<close> exactly when the URL contains \<^verbatim>\<open>gerrit\<close> in any mixture of upper and
  lower case, or contains \<^verbatim>\<open>:29418\<close>, or contains \<^verbatim>\<open>/r/\<close>, and \<open>Standard\<close> for every other
  URL.  Among the detectors of the ordered list, the first one that matches is the
  one that wins.
\<close>

theorem classify_gerrit_iff:
  "(classify url = Gerrit \<longleftrightarrow>
      (\<exists>a g b. url = a @ g @ b \<and> map toUpperCase g = ''GERRIT'')
      \<or> (\<exists>a b. url = a @ '':29418'' @ b)
      \<or> (\<exists>a b. url = a @ ''/r/'' @ b))
   \<and> (classify url = Standard \<longleftrightarrow>
      \<not> ((\<exists>a g b. url = a @ g @ b \<and> map toUpperCase g = ''GERRIT'')
         \<or> (\<exists>a b. url = a @ '':29418'' @ b)
         \<or> (\<exists>a b. url = a @ ''/r/'' @ b)))
   \<and> (\<forall>i < length GERRIT_DETECTION_PATTERNS.
         test (GERRIT_DETECTION_PATTERNS ! i) url
         \<and> (\<forall>j < i. \<not> test (GERRIT_DETECTION_PATTERNS ! j) url)
         \<longrightarrow> detect url = Some (GERRIT_DETECTION_PATTERNS ! i))"
proof -
  have g: "classify url = Gerrit \<longleftrightarrow>
      (\<exists>a g b. url = a @ g @ b \<and> map toUpperCase g = ''GERRIT'')
      \<or> (\<exists>a b. url = a @ '':29418'' @ b)
      \<or> (\<exists>a b. url = a @ ''/r/'' @ b)"
    unfolding includes_map_iff [symmetric] includes_iff [symmetric] classify_def detect_unfold
    by simp
  have s: "classify url = Standard \<longleftrightarrow> classify url \<noteq> Gerrit"
    by (cases "classify url") simp_all
  have f: "\<forall>i < length GERRIT_DETECTION_PATTERNS.
         test (GERRIT_DETECTION_PATTERNS ! i) url
         \<and> (\<forall>j < i. \<not> test (GERRIT_DETECTION_PATTERNS ! j) url)
         \<longrightarrow> detect url = Some (GERRIT_DETECTION_PATTERNS ! i)"
    unfolding detect_def by (blast intro: find_first)
  show ?thesis
    by (intro conjI, rule g, simp only: s g, rule f)
qed

theorem classify_gerrit_iff_witness:
  "classify ''ssh://host:29418/p'' = Gerrit
   \<and> classify ''https://github.com/o/p.git'' = Standard
   \<and> detect ''ssh://host:29418/r/p'' = Some (RegExpLiteral '':29418'' False)"
proof (intro conjI)
  have port: "\<exists>a b. ''ssh://host:29418/p'' = a @ '':29418'' @ b"
    by (rule exI [of _ "''ssh://host''"], rule exI [of _ "''/p''"]) simp
  show "classify ''ssh://host:29418/p'' = Gerrit"
    by (rule classify_gerrit_iff [of "''ssh://host:29418/p''", THEN conjunct1, THEN iffD2,
          OF disjI2, OF disjI1, OF port])
  have none: "\<not> ((\<exists>a g b. ''https://github.com/o/p.git'' = a @ g @ b
                      \<and> map toUpperCase g = ''GERRIT'')
         \<or> (\<exists>a b. ''https://github.com/o/p.git'' = a @ '':29418'' @ b)
         \<or> (\<exists>a b. ''https://github.com/o/p.git'' = a @ ''/r/'' @ b))"
    unfolding includes_map_iff [symmetric] includes_iff [symmetric] by code_simp
  show "classify ''https://github.com/o/p.git'' = Standard"
    by (rule classify_gerrit_iff [of "''https://github.com/o/p.git''", THEN conjunct2,
          THEN conjunct1, THEN iffD2, OF none])
  have second: "(1::nat) < length GERRIT_DETECTION_PATTERNS
     \<and> test (GERRIT_DETECTION_PATTERNS ! 1) ''ssh://host:29418/r/p''
     \<and> (\<forall>j < (1::nat). \<not> test (GERRIT_DETECTION_PATTERNS ! j) ''ssh://host:29418/r/p'')"
    by (simp add: GERRIT_DETECTION_PATTERNS_def) code_simp
  have entry: "GERRIT_DETECTION_PATTERNS ! 1 = RegExpLiteral '':29418'' False"
    by (simp add: GERRIT_DETECTION_PATTERNS_def)
  have "detect ''ssh://host:29418/r/p'' = Some (GERRIT_DETECTION_PATTERNS ! 1)"
    by (rule classify_gerrit_iff [of "''ssh://host:29418/r/p''", THEN conjunct2,
          THEN conjunct2, THEN spec, THEN mp, THEN mp,
          OF conjunct1 [OF second] conjunct2 [OF second]])
  then show "detect ''ssh://host:29418/r/p'' = Some (RegExpLiteral '':29418'' False)"
    unfolding entry .
qed

lemma includes_appendI1: "includesStr s p \<Longrightarrow> includesStr (s @ t) p"
proof -
  assume "includesStr s p"
  then obtain a b where "s = a @ p @ b" unfolding includes_iff by (elim exE)
  then have "s @ t = a @ p @ (b @ t)" by simp
  then show ?thesis unfolding includes_iff by (intro exI)
qed

lemma includes_appendI2: "includesStr t p \<Longrightarrow> includesStr (s @ t) p"
proof -
  assume "includesStr t p"
  then obtain a b where "t = a @ p @ b" unfolding includes_iff by (elim exE)
  then have "s @ t = (s @ a) @ p @ b" by simp
  then show ?thesis unfolding includes_iff by (intro exI)
qed

lemma includes_self: "includesStr s s"
proof -
  have "s = [] @ s @ []" by simp
  then show ?thesis unfolding includes_iff by (intro exI)
qed

lemma joinStr_includes: "x \<in> set xs \<Longrightarrow> includesStr (joinStr xs sep) x"
proof (induction xs sep rule: joinStr.induct)
  case (1 sep)
  then show ?case by simp
next
  case (2 y sep)
  then have "x = y" by simp
  then show ?case unfolding joinStr.simps by (simp only: includes_self)
next
  case (3 y z zs sep)
  show ?case
  proof (cases "x = y")
    case True
    have "includesStr (y @ sep @ joinStr (z # zs) sep) y"
      by (intro includes_appendI1 includes_self)
    with True show ?thesis
      unfolding joinStr.simps by (simp only:)
  next
    case False
    with "3.prems" have "x \<in> set (z # zs)" by simp
    then have "includesStr (joinStr (z # zs) sep) x" by (rule "3.IH")
    then show ?thesis
      unfolding joinStr.simps by (intro includes_appendI2)
  qed
qed

lemma message_lists_available:
  "b \<in> set available \<Longrightarrow> includesStr (BRANCH_NOT_FOUND_WITH_FALLBACK requested available) b"
proof (cases "b = []")
  case True
  have "BRANCH_NOT_FOUND_WITH_FALLBACK requested available
      = [] @ [] @ BRANCH_NOT_FOUND_WITH_FALLBACK requested available"
    by simp
  then show ?thesis
    unfolding True includes_iff by (intro exI)
next
  case False
  assume "b \<in> set available"
  then have inc: "includesStr (joinStr available '', '') b"
    by (rule joinStr_includes)
  with False have "joinStr available '', '' \<noteq> []"
    by (cases "joinStr available '', ''") auto
  with inc show ?thesis
    unfolding BRANCH_NOT_FOUND_WITH_FALLBACK_def
    by (simp only: if_False) (intro includes_appendI2)
qed

lemma firstIncluded_fallback:
  "firstIncluded BRANCH_FALLBACK_ORDER available =
     (if ''main'' \<in> set available then Some ''main''
      else if ''master'' \<in> set available then Some ''master''
      else None)"
  unfolding BRANCH_FALLBACK_ORDER_def firstIncluded.simps by (rule refl)

text \<open>
  C3.  A requested branch that is available is returned unchanged, whatever the
  fallback order.  A requested branch that is not available resolves, under the
  order main, master, to \<^verbatim>\<open>main\<close> when that is available, else to \<^verbatim>\<open>master\<close> when that
  is available, else to the failure \<open>BranchNotFound\<close> carrying the requested name and
  the whole list of available branches.  The fallback scan of the sources,
  \<^verbatim>\<open>getTryFallbackBranch\<close>, returns the same first entry, and the message that the
  sources keep for this failure contains the name of every available branch.
\<close>

theorem resolve_cases:
  "(requested \<in> set available \<longrightarrow>
      resolve requested available fallbackOrder = Inr requested)
   \<and> (requested \<notin> set available \<longrightarrow>
      resolve requested available BRANCH_FALLBACK_ORDER =
        (if ''main'' \<in> set available then Inr ''main''
         else if ''master'' \<in> set available then Inr ''master''
         else Inl (BranchNotFound requested available)))
   \<and> getTryFallbackBranch available =
        (if ''main'' \<in> set available then Some ''main''
         else if ''master'' \<in> set available then Some ''master''
         else None)
   \<and> (\<forall>b\<in>set available.
         includesStr (BRANCH_NOT_FOUND_WITH_FALLBACK requested available) b)"
proof (intro conjI ballI)
  show "requested \<in> set available \<longrightarrow>
      resolve requested available fallbackOrder = Inr requested"
    by (simp add: resolve_def)
  show "requested \<notin> set available \<longrightarrow>
      resolve requested available BRANCH_FALLBACK_ORDER =
        (if ''main'' \<in> set available then Inr ''main''
         else if ''master'' \<in> set available then Inr ''master''
         else Inl (BranchNotFound requested available))"
    unfolding resolve_def firstIncluded_fallback by simp
  show "getTryFallbackBranch available =
        (if ''main'' \<in> set available then Some ''main''
         else if ''master'' \<in> set available then Some ''master''
         else None)"
    unfolding getTryFallbackBranch_def by (rule firstIncluded_fallback)
next
  fix b
  assume "b \<in> set available"
  then show "includesStr (BRANCH_NOT_FOUND_WITH_FALLBACK requested available) b"
    by (rule message_lists_available)
qed

theorem resolve_cases_witness:
  "resolve ''dev'' [''dev'', ''main''] [''main'', ''dev''] = Inr ''dev''
   \<and> resolve ''dev'' [''master'', ''main''] BRANCH_FALLBACK_ORDER = Inr ''main''
   \<and> resolve ''dev'' [''trunk'', ''master''] BRANCH_FALLBACK_ORDER = Inr ''master''
   \<and> resolve ''dev'' [''trunk'', ''next''] BRANCH_FALLBACK_ORDER
        = Inl (BranchNotFound ''dev'' [''trunk'', ''next''])
   \<and> includesStr (BRANCH_NOT_FOUND_WITH_FALLBACK ''dev'' [''trunk'', ''next'']) ''next''"
proof -
  have a: "resolve ''dev'' [''dev'', ''main''] [''main'', ''dev''] = Inr ''dev''"
    using resolve_cases [of "''dev''" "[''dev'', ''main'']" "[''main'', ''dev'']"] by simp
  have b: "resolve ''dev'' [''master'', ''main''] BRANCH_FALLBACK_ORDER = Inr ''main''"
    using resolve_cases [of "''dev''" "[''master'', ''main'']"] by simp
  have c: "resolve ''dev'' [''trunk'', ''master''] BRANCH_FALLBACK_ORDER = Inr ''master''"
    using resolve_cases [of "''dev''" "[''trunk'', ''master'']"] by simp
  have d: "resolve ''dev'' [''trunk'', ''next''] BRANCH_FALLBACK_ORDER
        = Inl (BranchNotFound ''dev'' [''trunk'', ''next''])"
    using resolve_cases [of "''dev''" "[''trunk'', ''next'']"] by simp
  have "''next'' \<in> set [''trunk'', ''next'']"
    by simp
  then have e: "includesStr (BRANCH_NOT_FOUND_WITH_FALLBACK ''dev'' [''trunk'', ''next'']) ''next''"
    by (rule resolve_cases [of "''dev''" "[''trunk'', ''next'']", THEN conjunct2, THEN conjunct2,
          THEN conjunct2, THEN bspec])
  from a b c d e show ?thesis
    by (intro conjI)
qed

lemma commonAncestorIn_child_parent:
  "a \<noteq> b \<Longrightarrow> commonAncestorIn [(b, a)] b a = Some a"
  by (simp add: commonAncestorIn_def lineage_def)

lemma commonAncestorIn_siblings:
  "a \<noteq> b \<Longrightarrow> a \<noteq> c \<Longrightarrow> b \<noteq> c \<Longrightarrow> commonAncestorIn [(b, a), (c, a)] b c = Some a"
  by (simp add: commonAncestorIn_def lineage_def numeral_2_eq_2)

text \<open>
  C2.  For a source and a destination at different commits, the analyzer decides by
  the merge base: a merge base equal to the destination commit (the destination is a
  strict ancestor of the source) gives \<open>FastForward\<close>; no merge base, or a merge base
  that is neither of the two commits, gives \<open>Diverged\<close> with that merge base.  In
  particular, with source history \<open>a\<close>, \<open>b\<close> and the destination at \<open>a\<close> the result
  is \<open>FastForward\<close>, and with the destination at \<open>c\<close>, a second child of \<open>a\<close>, the
  result is \<open>Diverged\<close>.
\<close>

theorem analyze_classifies:
  "(commit src \<noteq> commit dst \<longrightarrow>
     (commonAncestor (commit src) (commit dst) = Some (commit dst)
        \<longrightarrow> analyze commonAncestor src (Some dst) = FastForward)
     \<and> (commonAncestor (commit src) (commit dst) = None
        \<longrightarrow> analyze commonAncestor src (Some dst) = Diverged None)
     \<and> (\<forall>m. commonAncestor (commit src) (commit dst) = Some m
            \<and> m \<noteq> commit src \<and> m \<noteq> commit dst
        \<longrightarrow> analyze commonAncestor src (Some dst) = Diverged (Some m)))
   \<and> (a \<noteq> b \<longrightarrow>
        analyze (commonAncestorIn [(b, a)])
          \<lparr>name = branch, commit = b\<rparr> (Some \<lparr>name = branch', commit = a\<rparr>) = FastForward)
   \<and> (a \<noteq> b \<and> a \<noteq> c \<and> b \<noteq> c \<longrightarrow>
        analyze (commonAncestorIn [(b, a), (c, a)])
          \<lparr>name = branch, commit = b\<rparr> (Some \<lparr>name = branch', commit = c\<rparr>)
          = Diverged (Some a))"
proof (intro conjI impI allI)
  assume "commit src \<noteq> commit dst"
    and "commonAncestor (commit src) (commit dst) = Some (commit dst)"
  then show "analyze commonAncestor src (Some dst) = FastForward"
    by (simp add: analyze_def)
next
  assume "commit src \<noteq> commit dst"
    and "commonAncestor (commit src) (commit dst) = None"
  then show "analyze commonAncestor src (Some dst) = Diverged None"
    by (simp add: analyze_def)
next
  fix m
  assume "commit src \<noteq> commit dst"
    and "commonAncestor (commit src) (commit dst) = Some m
           \<and> m \<noteq> commit src \<and> m \<noteq> commit dst"
  then show "analyze commonAncestor src (Some dst) = Diverged (Some m)"
    by (simp add: analyze_def)
next
  assume "a \<noteq> b"
  then show "analyze (commonAncestorIn [(b, a)])
          \<lparr>name = branch, commit = b\<rparr> (Some \<lparr>name = branch', commit = a\<rparr>) = FastForward"
    by (simp add: analyze_def commonAncestorIn_child_parent)
next
  assume "a \<noteq> b \<and> a \<noteq> c \<and> b \<noteq> c"
  then show "analyze (commonAncestorIn [(b, a), (c, a)])
          \<lparr>name = branch, commit = b\<rparr> (Some \<lparr>name = branch', commit = c\<rparr>)
          = Diverged (Some a)"
    by (simp add: analyze_def commonAncestorIn_siblings)
qed

theorem analyze_classifies_witness:
  "analyze (commonAncestorIn [(''B'', ''A'')])
     \<lparr>name = ''main'', commit = ''B''\<rparr> (Some \<lparr>name = ''main'', commit = ''A''\<rparr>) = FastForward
   \<and> analyze (commonAncestorIn [(''B'', ''A''), (''C'', ''A'')])
     \<lparr>name = ''main'', commit = ''B''\<rparr> (Some \<lparr>name = ''main'', commit = ''C''\<rparr>)
       = Diverged (Some ''A'')
   \<and> analyze (commonAncestorIn [(''B'', ''A''), (''C'', ''D'')])
     \<lparr>name = ''main'', commit = ''B''\<rparr> (Some \<lparr>name = ''main'', commit = ''C''\<rparr>)
       = Diverged None"
proof -
  have ff: "commonAncestorIn [(''B'', ''A'')] ''B'' ''A'' = Some ''A''"
    by code_simp
  have dv: "commonAncestorIn [(''B'', ''A''), (''C'', ''A'')] ''B'' ''C'' = Some ''A''"
    by code_simp
  have un: "commonAncestorIn [(''B'', ''A''), (''C'', ''D'')] ''B'' ''C'' = None"
    by code_simp
  show ?thesis
    using ff dv un
      analyze_classifies [of "\<lparr>name = ''main'', commit = ''B''\<rparr>"
        "\<lparr>name = ''main'', commit = ''A''\<rparr>" "commonAncestorIn [(''B'', ''A'')]"
        "''A''" "''B''" "''main''" "''main''" "''C''"]
      analyze_classifies [of "\<lparr>name = ''main'', commit = ''B''\<rparr>"
        "\<lparr>name = ''main'', commit = ''C''\<rparr>" "commonAncestorIn [(''B'', ''A''), (''C'', ''D'')]"
        "''A''" "''B''" "''main''" "''main''" "''C''"]
    by simp
qed




section \<open>Theorems about the action and the shell commands\<close>

lemma await_completes:
  "rejects git operation = None \<Longrightarrow> await git operation k = (fst k, operation # snd k)"
  by (simp add: await_def)

lemma await_rejects:
  "rejects git operation = Some m \<Longrightarrow> await git operation k = (Inl (Error m), [operation])"
  by (simp add: await_def)

lemma await_forced:
  "isPush operation \<longrightarrow> forced operation \<Longrightarrow> \<forall>x\<in>set (snd k). isPush x \<longrightarrow> forced x
    \<Longrightarrow> \<forall>x\<in>set (snd (await git operation k)). isPush x \<longrightarrow> forced x"
  by (cases "rejects git operation") (simp_all add: await_def)

lemma await_error:
  "fst (await git operation k) = Inl e \<Longrightarrow>
     (\<exists>m. rejects git operation = Some m \<and> e = Error m) \<or> fst k = Inl e"
  by (cases "rejects git operation") (auto simp: await_def)

lemma pushBranchNames_ops:
  "snd (pushBranchNames git bs) =
     map (\<lambda>b. branchPush b b)
       (takeWhile (\<lambda>b. rejects git (branchPush b b) = None) bs
        @ take 1 (dropWhile (\<lambda>b. rejects git (branchPush b b) = None) bs))"
  by (induction bs) (auto simp: await_def split: option.splits)

lemma pushBranchNames_completes_iff:
  "fst (pushBranchNames git bs) = Inr () \<longleftrightarrow>
     (\<forall>b\<in>set bs. rejects git (branchPush b b) = None)"
  by (induction bs) (auto simp: await_def split: option.splits)

lemma pushBranchNames_forced:
  "\<forall>x\<in>set (snd (pushBranchNames git bs)). isPush x \<longrightarrow> forced x"
  by (induction bs) (auto simp: await_def split: option.splits)

lemma pushBranchNames_error:
  "fst (pushBranchNames git bs) = Inl e \<Longrightarrow> \<exists>x m. rejects git x = Some m \<and> e = Error m"
proof (induction bs)
  case Nil
  then show ?case by simp
next
  case (Cons b bs)
  from Cons.prems show ?case
    by (auto dest!: await_error dest: Cons.IH)
qed

lemma pushMatchingTags_ops:
  "snd (pushMatchingTags git tags) =
     map (\<lambda>t. tagPush t)
       (takeWhile (\<lambda>t. rejects git (tagPush t) = None)
          (filter (\<lambda>t. t \<noteq> []) tags)
        @ take 1 (dropWhile (\<lambda>t. rejects git (tagPush t) = None)
          (filter (\<lambda>t. t \<noteq> []) tags)))"
  by (induction tags) (auto simp: await_def split: option.splits)

lemma pushMatchingTags_completes_iff:
  "fst (pushMatchingTags git tags) = Inr () \<longleftrightarrow>
     (\<forall>t\<in>set tags. t \<noteq> [] \<longrightarrow> rejects git (tagPush t) = None)"
  by (induction tags) (auto simp: await_def split: option.splits)

lemma pushMatchingTags_all:
  "\<forall>t\<in>set tags. t \<noteq> [] \<longrightarrow> rejects git (tagPush t) = None \<Longrightarrow>
   pushMatchingTags git tags =
     (Inr (), map (\<lambda>t. tagPush t) (filter (\<lambda>t. t \<noteq> []) tags))"
  by (induction tags) (auto simp: await_def split: option.splits)


lemma syncBranches_single:
  "syncBranches git s d False =
     (case rejects git (Fetch ''source'' s) of
        Some m \<Rightarrow> (Inl (Error m), [Fetch ''source'' s])
      | None \<Rightarrow>
          (case rejects git (branchPush s d) of
             Some m \<Rightarrow> (Inl (Error m), [Fetch ''source'' s, branchPush s d])
           | None \<Rightarrow> (Inr (), [Fetch ''source'' s, branchPush s d])))"
  by (simp add: syncBranches_def await_def split: option.splits)

lemma syncBranches_all:
  "syncBranches git s d True =
     (case rejects git BranchList of
        Some m \<Rightarrow> (Inl (Error m), [BranchList])
      | None \<Rightarrow> (fst (pushBranchNames git (branchNames (branchAll git))),
                 BranchList # snd (pushBranchNames git (branchNames (branchAll git)))))"
  by (simp add: syncBranches_def await_def split: option.splits)

text \<open>
  Every push that the action's \<^verbatim>\<open>syncBranches\<close> issues carries \<^verbatim>\<open>--force\<close>, in either
  mode, and the only errors it raises are those of the git client.
\<close>

lemma syncBranches_forced:
  "\<forall>x\<in>set (snd (syncBranches git s d allBranches)). isPush x \<longrightarrow> forced x"
proof (cases allBranches)
  case True
  then show ?thesis
    using pushBranchNames_forced [of git "branchNames (branchAll git)"]
    by (simp add: syncBranches_all split: option.splits)
next
  case False
  then show ?thesis
    by (simp add: syncBranches_single split: option.splits)
qed

lemma syncBranches_error:
  "fst (syncBranches git s d allBranches) = Inl e \<Longrightarrow> \<exists>x m. rejects git x = Some m \<and> e = Error m"
proof (cases allBranches)
  case True
  assume "fst (syncBranches git s d allBranches) = Inl e"
  with True show ?thesis
    by (auto simp: syncBranches_all split: option.splits dest: pushBranchNames_error)
next
  case False
  assume "fst (syncBranches git s d allBranches) = Inl e"
  with False show ?thesis
    by (auto simp: syncBranches_single split: option.splits)
qed


lemma syncTags_disabled: "syncTags regExp git [] = (Inr (), [])"
  by (simp add: syncTags_def)

text \<open>
  C7 (as amended).  In all-branches mode, once the branch listing has completed, the
  branches are force-pushed one at a time in listing order, and the first push that
  is rejected ends the function with that error: the operations started are the
  pushes of the branches before the first rejected one (these stay pushed), then the
  rejected push, and nothing after it.  No failure is collected per branch.  The
  function completes, and a run without tag sync is reported as completed, exactly
  when no branch push is rejected.
\<close>

theorem syncBranches_all_stops_at_first_rejection:
  "rejects git BranchList = None \<longrightarrow>
     snd (syncBranches git s d True) =
       BranchList #
       map (\<lambda>b. branchPush b b)
         (takeWhile (\<lambda>b. rejects git (branchPush b b) = None) (branchNames (branchAll git))
          @ take 1 (dropWhile (\<lambda>b. rejects git (branchPush b b) = None)
                      (branchNames (branchAll git))))
     \<and> (fst (syncBranches git s d True) = Inr () \<longleftrightarrow>
          (\<forall>b\<in>set (branchNames (branchAll git)). rejects git (branchPush b b) = None))
     \<and> (fst (runSync regExp git s d True []) = Completed \<longleftrightarrow>
          (\<forall>b\<in>set (branchNames (branchAll git)). rejects git (branchPush b b) = None))"
proof (intro impI conjI)
  assume listed: "rejects git BranchList = None"
  then have all: "syncBranches git s d True =
      (fst (pushBranchNames git (branchNames (branchAll git))),
       BranchList # snd (pushBranchNames git (branchNames (branchAll git))))"
    by (simp add: syncBranches_all)
  show "snd (syncBranches git s d True) =
       BranchList #
       map (\<lambda>b. branchPush b b)
         (takeWhile (\<lambda>b. rejects git (branchPush b b) = None) (branchNames (branchAll git))
          @ take 1 (dropWhile (\<lambda>b. rejects git (branchPush b b) = None)
                      (branchNames (branchAll git))))"
    unfolding all snd_conv pushBranchNames_ops by (rule refl)
  show completes: "fst (syncBranches git s d True) = Inr () \<longleftrightarrow>
          (\<forall>b\<in>set (branchNames (branchAll git)). rejects git (branchPush b b) = None)"
    unfolding all fst_conv by (rule pushBranchNames_completes_iff)
  have "fst (runSync regExp git s d True []) = Completed \<longleftrightarrow>
          fst (syncBranches git s d True) = Inr ()"
    by (cases "syncBranches git s d True"; cases "fst (syncBranches git s d True)")
       (simp_all add: runSync_def syncTags_disabled)
  then show "fst (runSync regExp git s d True []) = Completed \<longleftrightarrow>
          (\<forall>b\<in>set (branchNames (branchAll git)). rejects git (branchPush b b) = None)"
    unfolding completes .
qed

text \<open>
  C7, the claim as stated, fails.  With the source branches \<^verbatim>\<open>a\<close> and \<^verbatim>\<open>b\<close> and a
  destination that rejects the push of \<^verbatim>\<open>a\<close>, the function ends with the error after
  the push of \<^verbatim>\<open>a\<close>; the push of \<^verbatim>\<open>b\<close> is never started.
\<close>

theorem syncBranches_all_halts_counterexample:
  "syncBranches
     (clientRejecting [(Push ''origin'' ''refs/remotes/source/a:refs/heads/a'' True, ''remote rejected'')]
        [''source/a'', ''source/b''] [])
     ''main'' ''main'' True
   = (Inl (Error ''remote rejected''),
      [BranchList, Push ''origin'' ''refs/remotes/source/a:refs/heads/a'' True])"
  by code_simp


theorem syncBranches_all_stops_at_first_rejection_witness:
  "rejects (clientRejecting [(branchPush ''b'' ''b'', ''remote rejected'')]
              [''source/a'', ''source/b'', ''source/c''] []) BranchList = None
   \<and> snd (syncBranches
          (clientRejecting [(branchPush ''b'' ''b'', ''remote rejected'')]
             [''source/a'', ''source/b'', ''source/c''] [])
          ''main'' ''main'' True)
       = [BranchList, branchPush ''a'' ''a'', branchPush ''b'' ''b'']
   \<and> fst (syncBranches
          (clientRejecting [(branchPush ''b'' ''b'', ''remote rejected'')]
             [''source/a'', ''source/b'', ''source/c''] [])
          ''main'' ''main'' True) \<noteq> Inr ()
   \<and> fst (runSync fragmentRegExp
          (clientRejecting [(branchPush ''b'' ''b'', ''remote rejected'')]
             [''source/a'', ''source/b'', ''source/c''] [])
          ''main'' ''main'' True []) \<noteq> Completed"
proof -
  let ?git = "clientRejecting [(branchPush ''b'' ''b'', ''remote rejected'')]
                [''source/a'', ''source/b'', ''source/c''] []"
  have listed: "rejects ?git BranchList = None"
    by (simp add: clientRejecting_def)
  have names: "branchNames (branchAll ?git) = [''a'', ''b'', ''c'']"
    by code_simp
  have a: "rejects ?git (branchPush ''a'' ''a'') = None"
    by code_simp
  have b: "rejects ?git (branchPush ''b'' ''b'') = Some ''remote rejected''"
    by (simp add: clientRejecting_def)
  have pushed: "takeWhile (\<lambda>b. rejects ?git (branchPush b b) = None) [''a'', ''b'', ''c''] = [''a'']"
    using a b by simp
  have next_one: "take 1 (dropWhile (\<lambda>b. rejects ?git (branchPush b b) = None) [''a'', ''b'', ''c''])
      = [''b'']"
    using a b by simp
  have some: "\<not> (\<forall>x\<in>set [''a'', ''b'', ''c'']. rejects ?git (branchPush x x) = None)"
    using b by simp
  note inst = syncBranches_all_stops_at_first_rejection
      [of ?git "''main''" "''main''" fragmentRegExp, unfolded names pushed next_one, rule_format, OF listed]
  from inst some listed show ?thesis
    by simp
qed



lemma filterMatching_filter:
  "regExp pattern = Some matches \<Longrightarrow> filterMatching regExp pattern tags = Inr (filter matches tags)"
  by (simp add: filterMatching_def)

lemma syncTags_pattern_unfold:
  assumes "pattern \<noteq> ''true''" and "pattern \<noteq> []" and "regExp pattern = Some matches"
    and "rejects git (Fetch ''source'' ''--tags'') = None" and "rejects git TagList = None"
  shows "syncTags regExp git pattern =
     (fst (pushMatchingTags git (filter matches (tagsAll git))),
      Fetch ''source'' ''--tags'' # TagList
        # snd (pushMatchingTags git (filter matches (tagsAll git))))"
  using assms by (simp add: syncTags_def await_def filterMatching_filter)


lemma syncTags_invalid_pattern:
  assumes "pattern \<noteq> ''true''" and "pattern \<noteq> []" and "regExp pattern = None"
    and "rejects git (Fetch ''source'' ''--tags'') = None" and "rejects git TagList = None"
    and "tagsAll git \<noteq> []"
  shows "syncTags regExp git pattern =
     (Inl (SyntaxError pattern), [Fetch ''source'' ''--tags'', TagList])"
  using assms by (simp add: syncTags_def await_def filterMatching_def)

text \<open>
  C6 (as amended).  In the action's pattern mode, once the tag fetch and the tag
  listing have completed: when the pattern is a regular expression, every selected tag
  with a non-empty name is pushed by an operation of its own, forced, in listing
  order, and the first push that is rejected ends the function with that error, so
  the tags after it are not attempted; the function then completes exactly when no
  push of a selected tag is rejected.  When the pattern is not a regular expression
  and at least one tag is listed, the function ends with the syntax error before any
  push.
\<close>

theorem syncTags_stops_at_first_rejection:
  "pattern \<noteq> ''true'' \<and> pattern \<noteq> []
    \<and> rejects git (Fetch ''source'' ''--tags'') = None \<and> rejects git TagList = None
    \<longrightarrow>
      (regExp pattern = Some matches \<longrightarrow>
         snd (syncTags regExp git pattern) =
           Fetch ''source'' ''--tags'' # TagList #
           map tagPush
             (takeWhile (\<lambda>t. rejects git (tagPush t) = None)
                (filter (\<lambda>t. t \<noteq> []) (filter matches (tagsAll git)))
              @ take 1 (dropWhile (\<lambda>t. rejects git (tagPush t) = None)
                (filter (\<lambda>t. t \<noteq> []) (filter matches (tagsAll git)))))
         \<and> (fst (syncTags regExp git pattern) = Inr () \<longleftrightarrow>
              (\<forall>t\<in>set (filter matches (tagsAll git)).
                 t \<noteq> [] \<longrightarrow> rejects git (tagPush t) = None)))
      \<and> (regExp pattern = None \<and> tagsAll git \<noteq> [] \<longrightarrow>
           syncTags regExp git pattern =
             (Inl (SyntaxError pattern), [Fetch ''source'' ''--tags'', TagList]))"
proof (intro conjI impI)
  assume h: "pattern \<noteq> ''true'' \<and> pattern \<noteq> []
    \<and> rejects git (Fetch ''source'' ''--tags'') = None \<and> rejects git TagList = None"
  assume re: "regExp pattern = Some matches"
  from h re have u: "syncTags regExp git pattern =
     (fst (pushMatchingTags git (filter matches (tagsAll git))),
      Fetch ''source'' ''--tags'' # TagList
        # snd (pushMatchingTags git (filter matches (tagsAll git))))"
    by (intro syncTags_pattern_unfold) simp_all
  show "snd (syncTags regExp git pattern) =
        Fetch ''source'' ''--tags'' # TagList #
        map tagPush
          (takeWhile (\<lambda>t. rejects git (tagPush t) = None)
             (filter (\<lambda>t. t \<noteq> []) (filter matches (tagsAll git)))
           @ take 1 (dropWhile (\<lambda>t. rejects git (tagPush t) = None)
             (filter (\<lambda>t. t \<noteq> []) (filter matches (tagsAll git)))))"
    unfolding u snd_conv pushMatchingTags_ops by (rule refl)
  show "fst (syncTags regExp git pattern) = Inr () \<longleftrightarrow>
           (\<forall>t\<in>set (filter matches (tagsAll git)).
              t \<noteq> [] \<longrightarrow> rejects git (tagPush t) = None)"
    unfolding u fst_conv by (rule pushMatchingTags_completes_iff)
next
  assume h: "pattern \<noteq> ''true'' \<and> pattern \<noteq> []
    \<and> rejects git (Fetch ''source'' ''--tags'') = None \<and> rejects git TagList = None"
  assume "regExp pattern = None \<and> tagsAll git \<noteq> []"
  with h show "syncTags regExp git pattern =
             (Inl (SyntaxError pattern), [Fetch ''source'' ''--tags'', TagList])"
    by (intro syncTags_invalid_pattern) simp_all
qed

theorem syncTags_stops_at_first_rejection_witness:
  "snd (syncTags fragmentRegExp
          (clientRejecting [(tagPush ''v1.0'', ''remote rejected'')] []
             [''v1.0'', ''v1.1'', ''v2.0''])
          ''^v1'')
     = [Fetch ''source'' ''--tags'', TagList, tagPush ''v1.0'']
   \<and> fst (syncTags fragmentRegExp
          (clientRejecting [(tagPush ''v1.0'', ''remote rejected'')] []
             [''v1.0'', ''v1.1'', ''v2.0''])
          ''^v1'') \<noteq> Inr ()
   \<and> syncTags (\<lambda>p. if p = ''('' then None else fragmentRegExp p)
       (clientRejecting [] [] [''v1.0'']) ''(''
     = (Inl (SyntaxError ''(''), [Fetch ''source'' ''--tags'', TagList])"
proof -
  let ?git = "clientRejecting [(tagPush ''v1.0'', ''remote rejected'')] []
                [''v1.0'', ''v1.1'', ''v2.0'']"
  let ?matches = "matchHere [Lit CHR ''v'', Lit CHR ''1''] False"
  have p: "''^v1'' \<noteq> ''true'' \<and> ''^v1'' \<noteq> []
      \<and> rejects ?git (Fetch ''source'' ''--tags'') = None \<and> rejects ?git TagList = None"
    by (simp add: clientRejecting_def)
  have engine: "fragmentRegExp ''^v1'' = Some ?matches"
    by (simp add: fragmentRegExp_def)
  have tags: "tagsAll ?git = [''v1.0'', ''v1.1'', ''v2.0'']"
    by (simp add: clientRejecting_def)
  have selected: "filter ?matches [''v1.0'', ''v1.1'', ''v2.0''] = [''v1.0'', ''v1.1'']"
    by simp
  have nonempty: "filter (\<lambda>t. t \<noteq> []) [''v1.0'', ''v1.1''] = [''v1.0'', ''v1.1'']"
    by simp
  have first: "rejects ?git (tagPush ''v1.0'') = Some ''remote rejected''"
    by (simp add: clientRejecting_def)
  note inst = syncTags_stops_at_first_rejection
      [of "''^v1''" ?git fragmentRegExp ?matches]
  have action: "snd (syncTags fragmentRegExp ?git ''^v1'') =
        Fetch ''source'' ''--tags'' # TagList #
        map tagPush
          (takeWhile (\<lambda>t. rejects ?git (tagPush t) = None) [''v1.0'', ''v1.1'']
           @ take 1 (dropWhile (\<lambda>t. rejects ?git (tagPush t) = None) [''v1.0'', ''v1.1'']))
      \<and> (fst (syncTags fragmentRegExp ?git ''^v1'') = Inr () \<longleftrightarrow>
           (\<forall>t\<in>set [''v1.0'', ''v1.1'']. t \<noteq> [] \<longrightarrow> rejects ?git (tagPush t) = None))"
    by (rule inst [THEN mp, OF p, THEN conjunct1, THEN mp, OF engine,
          unfolded tags selected nonempty])
  have stop: "takeWhile (\<lambda>t. rejects ?git (tagPush t) = None) [''v1.0'', ''v1.1''] = []"
    and next_one: "take 1 (dropWhile (\<lambda>t. rejects ?git (tagPush t) = None) [''v1.0'', ''v1.1''])
      = [''v1.0'']"
    using first by simp_all
  have some: "\<not> (\<forall>t\<in>set [''v1.0'', ''v1.1'']. t \<noteq> [] \<longrightarrow> rejects ?git (tagPush t) = None)"
    using first by simp
  let ?plain = "clientRejecting [] [] [''v1.0'']"
  have q: "''('' \<noteq> ''true'' \<and> ''('' \<noteq> []
      \<and> rejects ?plain (Fetch ''source'' ''--tags'') = None \<and> rejects ?plain TagList = None"
    by (simp add: clientRejecting_def)
  let ?engine = "\<lambda>p. if p = ''('' then None else fragmentRegExp p"
  have listed: "?engine ''('' = None \<and> tagsAll ?plain \<noteq> []"
    by (simp add: clientRejecting_def)
  have refused: "syncTags ?engine ?plain ''(''
     = (Inl (SyntaxError ''(''), [Fetch ''source'' ''--tags'', TagList])"
    by (rule syncTags_stops_at_first_rejection
          [of "''(''" ?plain ?engine "\<lambda>t. True", THEN mp, OF q, THEN conjunct2, THEN mp,
            OF listed])
  from action [unfolded stop next_one] some refused show ?thesis
    by simp
qed

text \<open>
  C6, the claim as stated, fails.  With the tags \<^verbatim>\<open>v1.0\<close>, \<^verbatim>\<open>v1.1\<close> and \<^verbatim>\<open>v2.0\<close>, the
  pattern \<^verbatim>\<open>^v1\<close> and a destination that rejects the push of \<^verbatim>\<open>v1.0\<close>, the function
  ends with the error after the push of \<^verbatim>\<open>v1.0\<close>; the push of \<^verbatim>\<open>v1.1\<close> is never
  started.
\<close>

theorem syncTags_failure_counterexample:
  "syncTags fragmentRegExp
     (clientRejecting [(Push ''origin'' ''refs/tags/v1.0:refs/tags/v1.0'' True, ''remote rejected'')]
        [] [''v1.0'', ''v1.1'', ''v2.0''])
     ''^v1''
   = (Inl (Error ''remote rejected''),
      [Fetch ''source'' ''--tags'', TagList,
       Push ''origin'' ''refs/tags/v1.0:refs/tags/v1.0'' True])"
  by code_simp

text \<open>
  The action's selector in pattern mode.  When the pattern is a regular expression
  and no operation is rejected, \<^verbatim>\<open>matchingTags\<close> is exactly the list of the listed tags
  that the pattern matches, each of them with a non-empty name is pushed, and the
  function completes; in particular it completes, with no push, when nothing matches.
  With the pattern \<^verbatim>\<open>^v1\.\<close> and the tags \<^verbatim>\<open>v1.0\<close>, \<^verbatim>\<open>v1.1\<close>, \<^verbatim>\<open>v2.0\<close> the pushed tags are
  \<^verbatim>\<open>v1.0\<close> and \<^verbatim>\<open>v1.1\<close>.
\<close>

lemma syncTags_pattern_selects:
  assumes "pattern \<noteq> ''true''" and "pattern \<noteq> []" and "regExp pattern = Some matches"
    and "rejects git (Fetch ''source'' ''--tags'') = None" and "rejects git TagList = None"
    and "\<forall>t\<in>set (tagsAll git). matches t \<and> t \<noteq> [] \<longrightarrow> rejects git (tagPush t) = None"
  shows "filterMatching regExp pattern (tagsAll git) = Inr (filter matches (tagsAll git))
    \<and> syncTags regExp git pattern =
        (Inr (), Fetch ''source'' ''--tags'' # TagList
                 # map tagPush (filter (\<lambda>t. t \<noteq> []) (filter matches (tagsAll git))))
    \<and> (filter matches (tagsAll git) = [] \<longrightarrow>
          syncTags regExp git pattern = (Inr (), [Fetch ''source'' ''--tags'', TagList]))"
proof -
  have all: "\<forall>t\<in>set (filter matches (tagsAll git)). t \<noteq> [] \<longrightarrow> rejects git (tagPush t) = None"
    using assms(6) by simp
  have run: "syncTags regExp git pattern =
        (Inr (), Fetch ''source'' ''--tags'' # TagList
                 # map tagPush (filter (\<lambda>t. t \<noteq> []) (filter matches (tagsAll git))))"
    using assms(1-5)
    by (simp add: syncTags_pattern_unfold [where matches = matches] pushMatchingTags_all [OF all])
  have empty: "filter matches (tagsAll git) = [] \<longrightarrow>
          syncTags regExp git pattern = (Inr (), [Fetch ''source'' ''--tags'', TagList])"
    unfolding run by simp
  have sel: "filterMatching regExp pattern (tagsAll git) = Inr (filter matches (tagsAll git))"
    using assms(3) by (simp add: filterMatching_def)
  from sel run empty show ?thesis
    by (intro conjI)
qed

lemma syncTags_pattern_scenario:
  "syncTags fragmentRegExp (clientRejecting [] [] [''v1.0'', ''v1.1'', ''v2.0''])
     (''^v1'' @ [CHR 0x5C] @ ''.'')
   = (Inr (), [Fetch ''source'' ''--tags'', TagList, tagPush ''v1.0'', tagPush ''v1.1''])
   \<and> syncTags fragmentRegExp (clientRejecting [] [] [''v1.0'', ''v1.1'', ''v2.0'']) ''^v9''
   = (Inr (), [Fetch ''source'' ''--tags'', TagList])"
  by code_simp


text \<open>
  The shell variant.  A command that \<^verbatim>\<open>run\<close> starts without \<^verbatim>\<open>quiet\<close> never yields: it
  raises whether the command succeeds or not.  So \<^verbatim>\<open>syncBranch\<close> raises after its first
  command, for every shell and every pair of branches, and \<^verbatim>\<open>syncTags\<close> raises for every
  non-empty setting: after the deletion of the local tags it reaches the fetch, which
  is not quiet, and never hands over the search or a push.
\<close>

lemma run_not_quiet:
  "run shell command False =
     Inl (Error (''Command failed: '' @ command @ ''\<newline>''
           @ (case shell command of Inl message \<Rightarrow> message | Inr output \<Rightarrow> nullTrimMessage)))"
  by (simp add: run_def execSync_def split: sum.splits)

lemma runThen_not_quiet:
  "runThen shell command False k =
     (Inl (Error (''Command failed: '' @ command @ ''\<newline>''
            @ (case shell command of Inl message \<Rightarrow> message | Inr output \<Rightarrow> nullTrimMessage))),
      [command])"
  by (simp add: runThen_def run_not_quiet)

lemma syncBranch_raises:
  "syncBranch shell sourceBranch destinationBranch =
     (Inl (Error (''Command failed: git fetch tmp_upstream --quiet\<newline>''
            @ (case shell ''git fetch tmp_upstream --quiet'' of
                 Inl message \<Rightarrow> message
               | Inr output \<Rightarrow> nullTrimMessage))),
      [''git fetch tmp_upstream --quiet''])"
  unfolding syncBranch_def runThen_not_quiet by simp

lemma syncTags_shell_raises:
  assumes "setting \<noteq> []"
  shows "(\<exists>e. fst (syncTags_shell shell (Some setting)) = Inl e)
    \<and> grepTagsCommand setting \<notin> set (snd (syncTags_shell shell (Some setting)))
    \<and> (\<forall>c\<in>set (snd (syncTags_shell shell (Some setting))). \<not> startsWith c ''git push'')"
  using assms
  by (auto simp: syncTags_shell_def deleteLocalTags_def runThen_def run_not_quiet
      grepTagsCommand_def startsWith_def split: sum.splits)

text \<open>
  C5.  The selection is the list of the candidates that the pattern matches, and in
  the action an empty selection completes without an error (the two lemmas on
  \<open>syncTags\<close> above).  In the shell variant no selection is made at all.  With the
  pattern \<^verbatim>\<open>^v9\<close>, no local tags and a fetch that succeeds, the function deletes nothing,
  starts the fetch without \<^verbatim>\<open>quiet\<close>, and raises with the type error of \<^verbatim>\<open>run\<close> after
  these two commands; the search is never handed over.
\<close>

theorem syncTags_shell_empty_selection_raises:
  "syncTags_shell (scriptedShell []) (Some ''^v9'')
   = (Inl (Error (''Command failed: git fetch tmp_upstream --tags --quiet\<newline>''
             @ nullTrimMessage)),
      [''git tag -l'', ''git fetch tmp_upstream --tags --quiet''])"
  by (simp add: syncTags_shell_def deleteLocalTags_def runThen_def run_def execSync_def
      scriptedShell_def trim_def)

end
